theory Spec2Isabelle
  imports Main "HOL-Library.Word"
begin

section \<open>The C++ library facilities the printer relies on\<close>

subsection \<open>Sizes and strings\<close>

text \<open>
  \<open>std::size_t\<close> is a 64-bit unsigned integer; its arithmetic wraps around.
  \<open>std::string::npos\<close> is its largest value.  A \<open>std::string\<close> is a list of
  bytes whose length fits a \<open>size_t\<close>.
\<close>

type_synonym size_t = "64 word"

definition npos :: size_t where
  "npos = - 1"

definition valid_string :: "string \<Rightarrow> bool" where
  "valid_string s = (length s < 2 ^ 64)"

text \<open>
  \<open>s.at(pos)\<close> and \<open>s.substr(pos)\<close> throw \<open>std::out_of_range\<close> when the position
  lies outside the string; the exception is the value \<open>None\<close>.
\<close>

definition at :: "string \<Rightarrow> nat \<Rightarrow> char option" where
  "at s pos = (if pos < length s then Some (s ! pos) else None)"

definition substr :: "string \<Rightarrow> size_t \<Rightarrow> string option" where
  "substr s pos = (if length s < unat pos then None else Some (drop (unat pos) s))"

text \<open>
  \<open>s.find_last_of(chars)\<close>: the index of the last character of \<open>s\<close> that occurs
  in \<open>chars\<close>, or \<open>npos\<close> when there is none.
\<close>

fun last_index_of :: "string \<Rightarrow> string \<Rightarrow> nat option" where
  "last_index_of chars [] = None"
| "last_index_of chars (c # cs) =
     (case last_index_of chars cs of
        Some i \<Rightarrow> Some (Suc i)
      | None \<Rightarrow> (if c \<in> set chars then Some 0 else None))"

definition find_last_of :: "string \<Rightarrow> string \<Rightarrow> size_t" where
  "find_last_of s chars =
     (case last_index_of chars s of None \<Rightarrow> npos | Some i \<Rightarrow> of_nat i)"

subsection \<open>Decimal output of integers\<close>

definition digit_char :: "nat \<Rightarrow> char" where
  "digit_char d = ''0123456789'' ! d"

fun decimal :: "nat \<Rightarrow> string" where
  "decimal n =
     (if n < 10 then [digit_char n] else decimal (n div 10) @ [digit_char (n mod 10)])"

declare decimal.simps [simp del]

text \<open>
  What \<open>operator<<\<close> writes for a signed integer in the default format (decimal, no
  \<open>showpos\<close>, classic locale), before any padding: a minus sign for a negative value,
  then the digits of the magnitude.  The string stream of \<open>insert_separators\<close> is always
  in this format.
\<close>

definition to_chars :: "int \<Rightarrow> string" where
  "to_chars n = (if n < 0 then CHR ''-'' # decimal (nat (- n)) else decimal (nat n))"

subsection \<open>Formatted output streams\<close>

text \<open>
  The part of a \<open>std::ostream\<close> that the printer writes: the bytes written so far,
  the fill character, the field width and the adjustment.  \<open>setfill\<close> and the
  adjustment are sticky; the width is reset to 0 by every formatted insertion.  An unset
  adjustment pads like \<open>right\<close> and is represented by it.
\<close>

datatype adjustfield = Left | Right | Internal

record ostream =
  buf :: string
  fill :: char
  width :: int
  adjust :: adjustfield

definition newline :: char where
  "newline = CHR 0x0A"

definition setfill :: "char \<Rightarrow> ostream \<Rightarrow> ostream" where
  "setfill c os = os\<lparr>fill := c\<rparr>"

definition setw :: "int \<Rightarrow> ostream \<Rightarrow> ostream" where
  "setw n os = os\<lparr>width := n\<rparr>"

definition std_left :: "ostream \<Rightarrow> ostream" where
  "std_left os = os\<lparr>adjust := Left\<rparr>"

definition std_right :: "ostream \<Rightarrow> ostream" where
  "std_right os = os\<lparr>adjust := Right\<rparr>"

definition padding :: "ostream \<Rightarrow> string \<Rightarrow> string" where
  "padding os s = replicate (nat (width os - int (length s))) (fill os)"

text \<open>Insertion of a string or of a character: the padding goes after the text only
  when the adjustment is \<open>left\<close>.\<close>

definition put_str :: "string \<Rightarrow> ostream \<Rightarrow> ostream" where
  "put_str s os =
     os\<lparr>buf := buf os @ (case adjust os of
                            Left \<Rightarrow> s @ padding os s
                          | Right \<Rightarrow> padding os s @ s
                          | Internal \<Rightarrow> padding os s @ s),
        width := 0\<rparr>"

definition put_char :: "char \<Rightarrow> ostream \<Rightarrow> ostream" where
  "put_char c os = put_str [c] os"

text \<open>
  The number format of a stream: the base and the flags \<open>showbase\<close>, \<open>showpos\<close> and
  \<open>uppercase\<close>.  They are sticky too, and nothing in the printer sets them.  An unset
  base formats like \<open>dec\<close> and is represented by it.  \<open>classic\<close> is the format of a
  stream whose flags were never changed.
\<close>

datatype basefield = Dec | Oct | Hex

record fmtflags =
  base :: basefield
  showbase :: bool
  showpos :: bool
  uppercase :: bool

definition classic :: fmtflags where
  "classic = \<lparr>base = Dec, showbase = False, showpos = False, uppercase = False\<rparr>"

definition xdigit_char :: "bool \<Rightarrow> nat \<Rightarrow> char" where
  "xdigit_char upper d = (if upper then ''0123456789ABCDEF'' else ''0123456789abcdef'') ! d"

fun hexadecimal :: "bool \<Rightarrow> nat \<Rightarrow> string" where
  "hexadecimal upper n =
     (if n < 16 then [xdigit_char upper n]
      else hexadecimal upper (n div 16) @ [xdigit_char upper (n mod 16)])"

declare hexadecimal.simps [simp del]

fun octal :: "nat \<Rightarrow> string" where
  "octal n = (if n < 8 then [digit_char n] else octal (n div 8) @ [digit_char (n mod 8)])"

declare octal.simps [simp del]

text \<open>
  What \<open>operator<<\<close> writes for an \<open>int\<close> in a given number format, before any padding.
  In decimal: the sign (a plus sign only with \<open>showpos\<close>) and the digits of the magnitude.
  In octal and hexadecimal the value is converted as an \<open>unsigned int\<close>, that is modulo
  \<open>2^32\<close>, \<open>showpos\<close> has no effect, and \<open>showbase\<close> puts \<open>0\<close>, \<open>0x\<close> or \<open>0X\<close> before
  a value that is not zero.  With \<open>internal\<close> adjustment the padding goes between
  \<open>num_prefix\<close> and \<open>num_digits\<close>.
\<close>

definition as_unsigned :: "int \<Rightarrow> nat" where
  "as_unsigned n = nat (n mod 2 ^ 32)"

definition num_prefix :: "fmtflags \<Rightarrow> int \<Rightarrow> string" where
  "num_prefix f n =
     (case base f of
        Dec \<Rightarrow> (if n < 0 then ''-'' else if showpos f then ''+'' else [])
      | Oct \<Rightarrow> []
      | Hex \<Rightarrow> (if showbase f \<and> as_unsigned n \<noteq> 0
                then (if uppercase f then ''0X'' else ''0x'') else []))"

definition num_digits :: "fmtflags \<Rightarrow> int \<Rightarrow> string" where
  "num_digits f n =
     (case base f of
        Dec \<Rightarrow> decimal (nat \<bar>n\<bar>)
      | Oct \<Rightarrow> (if showbase f \<and> as_unsigned n \<noteq> 0 then ''0'' else []) @ octal (as_unsigned n)
      | Hex \<Rightarrow> hexadecimal (uppercase f) (as_unsigned n))"

definition num_chars :: "fmtflags \<Rightarrow> int \<Rightarrow> string" where
  "num_chars f n = num_prefix f n @ num_digits f n"

text \<open>Insertion of an \<open>int\<close> into a stream whose number format is \<open>f\<close>.\<close>

definition put_num :: "fmtflags \<Rightarrow> int \<Rightarrow> ostream \<Rightarrow> ostream" where
  "put_num f n os =
     (let s = num_chars f n in
      os\<lparr>buf := buf os @ (case adjust os of
                            Left \<Rightarrow> s @ padding os s
                          | Right \<Rightarrow> padding os s @ s
                          | Internal \<Rightarrow> num_prefix f n @ padding os s @ num_digits f n),
         width := 0\<rparr>)"

text \<open>\<open>std::endl\<close> writes a line feed as unformatted output (no padding, the
  width is left alone) and flushes.\<close>

definition endl :: "ostream \<Rightarrow> ostream" where
  "endl os = os\<lparr>buf := buf os @ [newline]\<rparr>"

text \<open>A chain \<open>os << a << b << ...\<close> applies the insertions from left to right.\<close>

definition chain :: "ostream \<Rightarrow> (ostream \<Rightarrow> ostream) list \<Rightarrow> ostream" where
  "chain os fs = foldl (\<lambda>s f. f s) os fs"

text \<open>The conversion of a \<open>size_t\<close> to the \<open>int\<close> that \<open>setw\<close> takes.\<close>

definition int_of_size_t :: "size_t \<Rightarrow> int" where
  "int_of_size_t n = sint (ucast n :: 32 word)"

section \<open>The measurements\<close>

text \<open>
  Modelled from the spec: \<open>speedo/multi_measurement.h\<close>, which declares
  \<open>MultiMeasurement\<close> and its checkpoints, is not part of the sources.  An aggregate
  has a start and an end checkpoint (a file name and a line number), a sample count, and
  an average and an overall duration in microseconds, all integers.  The line numbers and
  the count are inserted into the stream as \<open>int\<close>; the durations go through
  \<open>insert_separators\<close> as \<open>long\<close>.
\<close>

record Checkpoint =
  get_file :: string
  get_line :: int

record MultiMeasurement =
  get_start :: Checkpoint
  get_end :: Checkpoint
  count :: int
  get_average_duration :: int
  get_overall_duration :: int

definition valid_measurement :: "MultiMeasurement \<Rightarrow> bool" where
  "valid_measurement m =
     (valid_string (get_file (get_start m)) \<and> valid_string (get_file (get_end m)))"

section \<open>The printer\<close>

text \<open>The member \<open>measurements_\<close> of the class; an identifier cannot end with an underscore here.\<close>

record Printer =
  measurements :: "MultiMeasurement list"

definition line_width :: int where "line_width = 80"
definition file_col_width :: int where "file_col_width = 30"
definition line_col_width :: int where "line_col_width = 6"
definition count_col_width :: int where "count_col_width = 10"
definition avg_duration_col_width :: int where "avg_duration_col_width = 15"
definition ovr_duration_col_width :: int where "ovr_duration_col_width = 15"

text \<open>A printer starts without measurements; \<open>add\<close> appends one.\<close>

definition Printer_new :: Printer where
  "Printer_new = \<lparr>measurements = []\<rparr>"

definition add :: "MultiMeasurement \<Rightarrow> Printer \<Rightarrow> Printer" where
  "add measurement p = p\<lparr>measurements := measurements p @ [measurement]\<rparr>"

text \<open>The vector of a printer holds fewer than \<open>2^31\<close> valid measurements, so
  that the \<open>int\<close> counter of the loop in \<open>print\<close> does not overflow.\<close>

definition valid_printer :: "Printer \<Rightarrow> bool" where
  "valid_printer p =
     (length (measurements p) < 2 ^ 31 \<and> list_all valid_measurement (measurements p))"

subsection \<open>\<open>crop_path\<close>\<close>

definition crop_path :: "string \<Rightarrow> string option" where
  "crop_path file_name =
     (let slash_position = find_last_of file_name [CHR ''/'', CHR 0x5C]
      in substr file_name (slash_position + 1))"

subsection \<open>\<open>insert_separators\<close>\<close>

text \<open>
  The loop over \<open>pos\<close>; \<open>stream\<close> is the content of the string stream, emptied
  before the loop.  Inside the loop \<open>pos < n_str.length()\<close>, so the unsigned
  difference \<open>n_str.length()-1-pos\<close> does not wrap.
\<close>

function insert_separators_loop :: "string \<Rightarrow> nat \<Rightarrow> string \<Rightarrow> string option" where
  "insert_separators_loop n_str pos stream =
     (if pos < length n_str then
        (case at n_str pos of
           None \<Rightarrow> None
         | Some c \<Rightarrow>
             insert_separators_loop n_str (Suc pos)
               (if length n_str - 1 - pos \<ge> 3 \<and> (length n_str - 1 - pos) mod 3 = 0
                then stream @ [c] @ '',''
                else stream @ [c]))
      else Some stream)"
  by pat_completeness auto
termination
  by (relation "measure (\<lambda>(n_str, pos, stream). length n_str - pos)") auto

declare insert_separators_loop.simps [simp del]

definition insert_separators :: "int \<Rightarrow> string option" where
  "insert_separators n = (let n_str = to_chars n in insert_separators_loop n_str 0 [])"

subsection \<open>Lines, title and header\<close>

definition print_hline :: "char \<Rightarrow> ostream \<Rightarrow> ostream" where
  "print_hline fill_char os =
     chain os [setfill fill_char, setw line_width, put_char fill_char, endl]"

definition title :: string where
  "title = '' PROFILING WITH SPEEDO ''"

definition title_pad :: int where
  "title_pad = int_of_size_t ((word_of_int line_width - of_nat (length title)) div 2)"

definition print_title :: "ostream \<Rightarrow> ostream" where
  "print_title os =
     (let fill_char = CHR ''#'' in
      chain os
        [setfill fill_char,
         setw line_width, put_char fill_char, endl,
         setw title_pad, put_char fill_char, put_str title,
         put_str (if (of_nat (length title) :: size_t) mod 2 > 0 then [fill_char] else []),
         setw title_pad, put_char fill_char, endl,
         setw line_width, put_char fill_char, endl])"

definition print_header :: "ostream \<Rightarrow> ostream" where
  "print_header os =
     print_hline CHR ''=''
       (chain os
          [setfill CHR '' '',
           setw file_col_width, std_left, put_str ''File'', put_str ''|'',
           setw line_col_width, std_right, put_str ''Line '', put_str ''|'',
           setw count_col_width, std_right, put_str ''Count '', put_str ''|'',
           setw avg_duration_col_width, std_right, put_str ''Average [us] '', put_str ''|'',
           setw ovr_duration_col_width, std_right, put_str ''Overall [us]'',
           endl])"

subsection \<open>The two rows of a measurement\<close>

text \<open>
  \<open>crop_path\<close> and \<open>insert_separators\<close> call \<open>substr\<close> and \<open>at\<close>, which can throw;
  an exception leaves \<open>print\<close>, so the result is \<open>None\<close> then.  The local variable
  \<open>file_end\<close> is cleared when it equals \<open>file_start\<close>.  The line numbers and the count
  are inserted in the number format \<open>fmt\<close> of the stream; the durations are formatted by
  \<open>insert_separators\<close> in a string stream of its own.
\<close>

definition print_measurement_with ::
  "fmtflags \<Rightarrow> MultiMeasurement \<Rightarrow> ostream \<Rightarrow> ostream option" where
  "print_measurement_with fmt measurement os =
     (case crop_path (get_file (get_start measurement)) of
        None \<Rightarrow> None
      | Some file_start \<Rightarrow>
          (let os1 = chain os
                 [setfill CHR '' '',
                  setw file_col_width, std_left, put_str file_start, put_str ''|'',
                  setw line_col_width, std_right,
                  put_num fmt (get_line (get_start measurement)), put_str ''|'',
                  setw count_col_width, std_right, put_str '' '', put_str ''|'',
                  setw avg_duration_col_width, std_right, put_str '' '', put_str ''|'',
                  endl]
           in
           (case crop_path (get_file (get_end measurement)) of
              None \<Rightarrow> None
            | Some file_end0 \<Rightarrow>
                (let file_end = (if file_start = file_end0 then [] else file_end0) in
                 (case insert_separators (get_average_duration measurement) of
                    None \<Rightarrow> None
                  | Some average \<Rightarrow>
                      (case insert_separators (get_overall_duration measurement) of
                         None \<Rightarrow> None
                       | Some overall \<Rightarrow>
                           Some (chain os1
                             [setfill CHR '' '',
                              setw file_col_width, std_left, put_str file_end, put_str ''|'',
                              setw line_col_width, std_right,
                              put_num fmt (get_line (get_end measurement)), put_str ''|'',
                              setw count_col_width, std_right,
                              put_num fmt (count measurement), put_str ''|'',
                              setw avg_duration_col_width, std_right,
                              put_str average, put_str ''|'',
                              setw ovr_duration_col_width, std_right,
                              put_str overall,
                              endl])))))))"

text \<open>The same on a stream in its default number format.\<close>

definition print_measurement :: "MultiMeasurement \<Rightarrow> ostream \<Rightarrow> ostream option" where
  "print_measurement measurement os = print_measurement_with classic measurement os"

subsection \<open>\<open>print\<close>\<close>

text \<open>
  The loop of \<open>print\<close> over the index \<open>i\<close>.  Inside the loop the vector is not
  empty, so \<open>measurements_.size()-1\<close> does not wrap.
\<close>

function print_loop_with ::
  "fmtflags \<Rightarrow> MultiMeasurement list \<Rightarrow> nat \<Rightarrow> ostream \<Rightarrow> ostream option" where
  "print_loop_with fmt ms i os =
     (if i < length ms then
        (case print_measurement_with fmt (ms ! i) os of
           None \<Rightarrow> None
         | Some os1 \<Rightarrow>
             print_loop_with fmt ms (Suc i)
               (print_hline (if i < length ms - 1 then CHR ''-'' else CHR ''#'') os1))
      else Some os)"
  by pat_completeness auto
termination
  by (relation "measure (\<lambda>(fmt, ms, i, os). length ms - i)") auto

declare print_loop_with.simps [simp del]

definition print_with :: "fmtflags \<Rightarrow> Printer \<Rightarrow> ostream \<Rightarrow> ostream option" where
  "print_with fmt p os =
     print_loop_with fmt (measurements p) 0 (print_header (print_title os))"

text \<open>The same on a stream in its default number format.\<close>

definition print :: "Printer \<Rightarrow> ostream \<Rightarrow> ostream option" where
  "print p os = print_with classic p os"

subsection \<open>Calls on a printer object\<close>

text \<open>
  The state of a program that owns a printer: the printer object and the error stream,
  with its number format.  \<open>add\<close> changes the object.  \<open>print\<close> is a \<open>const\<close> member
  function, and the functions it calls are \<open>static\<close>: a call reads the object and the
  number format and writes the stream; when an exception leaves it the result is
  \<open>None\<close>.
\<close>

record program =
  printer :: Printer
  cerr_flags :: fmtflags
  cerr :: ostream

definition call_add :: "MultiMeasurement \<Rightarrow> program \<Rightarrow> program" where
  "call_add m st = st\<lparr>printer := add m (printer st)\<rparr>"

definition call_print :: "program \<Rightarrow> program option" where
  "call_print st =
     (case print_with (cerr_flags st) (printer st) (cerr st) of
        None \<Rightarrow> None
      | Some os \<Rightarrow> Some (st\<lparr>cerr := os\<rparr>))"

section \<open>The report as the specification describes it\<close>

text \<open>
  The definitions of this section say what the output is.  They follow the words of the
  specification, except \<open>separated\<close>, which restates the loop of \<open>insert_separators\<close> as
  a structural recursion; the theorems below compare the code with them.
\<close>

subsection \<open>Thousands separators\<close>

text \<open>The loop of \<open>insert_separators\<close> as a recursion over the remaining characters:
  a comma follows a character when the number of characters after it is a positive
  multiple of 3.\<close>

fun separated :: "string \<Rightarrow> string" where
  "separated [] = []"
| "separated (c # cs) =
     c # (if length cs \<ge> 3 \<and> length cs mod 3 = 0 then CHR '','' # separated cs
          else separated cs)"

text \<open>Groups of three counted from the least-significant end: \<open>group3\<close> works on the
  reversed string and puts a comma after every complete group that is followed by
  another character.\<close>

fun group3 :: "string \<Rightarrow> string" where
  "group3 (a # b # c # d # ds) = a # b # c # CHR '','' # group3 (d # ds)"
| "group3 ds = ds"

definition with_separators :: "string \<Rightarrow> string" where
  "with_separators s = rev (group3 (rev s))"

subsection \<open>Base names\<close>

definition is_separator :: "char \<Rightarrow> bool" where
  "is_separator c = (c = CHR ''/'' \<or> c = CHR 0x5C)"

definition basename :: "string \<Rightarrow> string" where
  "basename s = rev (takeWhile (\<lambda>c. \<not> is_separator c) (rev s))"

subsection \<open>Fields, rows and lines\<close>

text \<open>A field of minimum width \<open>w\<close>: the text in full, padded with spaces on the right
  (left-aligned) or on the left (right-aligned).\<close>

definition ljust :: "nat \<Rightarrow> string \<Rightarrow> string" where
  "ljust w s = s @ replicate (w - length s) CHR '' ''"

definition rjust :: "nat \<Rightarrow> string \<Rightarrow> string" where
  "rjust w s = replicate (w - length s) CHR '' '' @ s"

definition hline :: "char \<Rightarrow> string" where
  "hline c = replicate 80 c @ [newline]"

definition title_banner :: string where
  "title_banner =
     replicate 80 CHR ''#'' @ [newline] @
     replicate 28 CHR ''#'' @ title @ ''#'' @ replicate 28 CHR ''#'' @ [newline] @
     replicate 80 CHR ''#'' @ [newline]"

definition header_row :: string where
  "header_row =
     ljust 30 ''File'' @ ''|'' @ rjust 6 ''Line '' @ ''|'' @ rjust 10 ''Count '' @ ''|'' @
     rjust 15 ''Average [us] '' @ ''|'' @ rjust 15 ''Overall [us]''"

definition row_A :: "MultiMeasurement \<Rightarrow> string" where
  "row_A m =
     ljust 30 (basename (get_file (get_start m))) @ ''|'' @
     rjust 6 (to_chars (get_line (get_start m))) @ ''|'' @
     replicate 10 CHR '' '' @ ''|'' @
     replicate 15 CHR '' '' @ ''|''"

text \<open>The file name shown on the second row.\<close>

definition shown_file_end :: "MultiMeasurement \<Rightarrow> string" where
  "shown_file_end m =
     (if basename (get_file (get_end m)) = basename (get_file (get_start m)) then []
      else basename (get_file (get_end m)))"

definition row_B_tail :: "MultiMeasurement \<Rightarrow> string" where
  "row_B_tail m =
     rjust 6 (to_chars (get_line (get_end m))) @ ''|'' @
     rjust 10 (to_chars (count m)) @ ''|'' @
     rjust 15 (with_separators (to_chars (get_average_duration m))) @ ''|'' @
     rjust 15 (with_separators (to_chars (get_overall_duration m)))"

definition row_B :: "MultiMeasurement \<Rightarrow> string" where
  "row_B m = ljust 30 (shown_file_end m) @ ''|'' @ row_B_tail m"

definition block :: "MultiMeasurement \<Rightarrow> string" where
  "block m = row_A m @ [newline] @ row_B m @ [newline]"

fun body :: "MultiMeasurement list \<Rightarrow> string" where
  "body [] = []"
| "body (m # ms) = block m @ hline (if ms = [] then CHR ''#'' else CHR ''-'') @ body ms"

definition report :: "Printer \<Rightarrow> string" where
  "report p = title_banner @ header_row @ [newline] @ hline CHR ''='' @ body (measurements p)"

text \<open>The same in a number format \<open>f\<close> of the stream: it affects the line numbers and
  the count, not the durations.\<close>

definition row_A_with :: "fmtflags \<Rightarrow> MultiMeasurement \<Rightarrow> string" where
  "row_A_with f m =
     ljust 30 (basename (get_file (get_start m))) @ ''|'' @
     rjust 6 (num_chars f (get_line (get_start m))) @ ''|'' @
     replicate 10 CHR '' '' @ ''|'' @
     replicate 15 CHR '' '' @ ''|''"

definition row_B_with :: "fmtflags \<Rightarrow> MultiMeasurement \<Rightarrow> string" where
  "row_B_with f m =
     ljust 30 (shown_file_end m) @ ''|'' @
     rjust 6 (num_chars f (get_line (get_end m))) @ ''|'' @
     rjust 10 (num_chars f (count m)) @ ''|'' @
     rjust 15 (with_separators (to_chars (get_average_duration m))) @ ''|'' @
     rjust 15 (with_separators (to_chars (get_overall_duration m)))"

definition block_with :: "fmtflags \<Rightarrow> MultiMeasurement \<Rightarrow> string" where
  "block_with f m = row_A_with f m @ [newline] @ row_B_with f m @ [newline]"

fun body_with :: "fmtflags \<Rightarrow> MultiMeasurement list \<Rightarrow> string" where
  "body_with f [] = []"
| "body_with f (m # ms) =
     block_with f m @ hline (if ms = [] then CHR ''#'' else CHR ''-'') @ body_with f ms"

definition report_with :: "fmtflags \<Rightarrow> Printer \<Rightarrow> string" where
  "report_with f p =
     title_banner @ header_row @ [newline] @ hline CHR ''='' @ body_with f (measurements p)"

subsection \<open>Concrete inputs\<close>

text \<open>The error stream before anything is written to it.\<close>

definition cerr0 :: ostream where
  "cerr0 = \<lparr>buf = [], fill = CHR '' '', width = 0, adjust = Right\<rparr>"

definition measurement ::
  "string \<Rightarrow> int \<Rightarrow> string \<Rightarrow> int \<Rightarrow> int \<Rightarrow> int \<Rightarrow> int \<Rightarrow> MultiMeasurement" where
  "measurement file1 line1 file2 line2 n average overall =
     \<lparr>get_start = \<lparr>get_file = file1, get_line = line1\<rparr>,
      get_end = \<lparr>get_file = file2, get_line = line2\<rparr>,
      count = n, get_average_duration = average, get_overall_duration = overall\<rparr>"

text \<open>A stream left in hexadecimal with \<open>showbase\<close>, as after
  \<open>std::cerr << std::hex << std::showbase\<close>.\<close>

definition hex_showbase :: fmtflags where
  "hex_showbase = \<lparr>base = Hex, showbase = True, showpos = False, uppercase = False\<rparr>"

text \<open>The aggregate of the end-to-end scenario of the specification.\<close>

definition scenario :: MultiMeasurement where
  "scenario = measurement ''src/a.cpp'' 10 ''src/a.cpp'' 20 2 1500 3000"

text \<open>An aggregate whose file name has exactly 30 characters, and one with 31.\<close>

definition wide30 :: MultiMeasurement where
  "wide30 = measurement ''src/abcdefghijklmnopqrstuvwxyz.cpp'' 10 ''src/abcdefghijklmnopqrstuvwxyz.cpp'' 20 2 1500 3000"

definition wide31 :: MultiMeasurement where
  "wide31 = measurement ''src/abcdefghijklmnopqrstuvwxyz0.cpp'' 10 ''src/abcdefghijklmnopqrstuvwxyz0.cpp'' 20 2 1500 3000"



definition wide_end :: MultiMeasurement where
  "wide_end = measurement ''src/a.cpp'' 10 ''lib/abcdefghijklmnopqrstuvwxyz0.cpp'' 20 2 1234567890123 2469135780246"

section \<open>What the library functions compute\<close>

lemma digit_char_digit: "d < 10 \<Longrightarrow> digit_char d \<in> set ''0123456789''"
  unfolding digit_char_def by (rule nth_mem) simp

lemma decimal_digits: "set (decimal n) \<subseteq> set ''0123456789''"
proof (induction n rule: decimal.induct)
  case (1 n)
  show ?case
  proof (cases "n < 10")
    case True
    then show ?thesis
      using digit_char_digit[of n] by (subst decimal.simps) simp
  next
    case False
    have "n mod 10 < 10" by simp
    then have "digit_char (n mod 10) \<in> set ''0123456789''"
      by (rule digit_char_digit)
    with False "1.IH" show ?thesis
      by (subst decimal.simps) simp
  qed
qed

lemma decimal_nonempty: "decimal n \<noteq> []"
  by (subst decimal.simps) simp

lemma decimal_no_comma: "CHR '','' \<notin> set (decimal n)"
  using decimal_digits[of n] by auto



lemma last_index_of_none:
  "(\<forall>x\<in>set s. x \<notin> set chars) \<Longrightarrow> last_index_of chars s = None"
  by (induction s) auto

lemma last_index_of_last:
  "c \<in> set chars \<Longrightarrow> (\<forall>x\<in>set suf. x \<notin> set chars) \<Longrightarrow>
   last_index_of chars (pre @ c # suf) = Some (length pre)"
  by (induction pre) (auto simp: last_index_of_none)

section \<open>\<open>crop_path\<close> returns the base name\<close>

lemma crop_path_no_separator:
  assumes "\<forall>x\<in>set s. \<not> is_separator x"
  shows "crop_path s = Some s"
proof -
  have "last_index_of [CHR ''/'', CHR 0x5C] s = None"
    using assms by (intro last_index_of_none) (auto simp: is_separator_def)
  then show ?thesis
    by (simp add: crop_path_def find_last_of_def npos_def substr_def)
qed

lemma crop_path_after_last:
  assumes v: "valid_string (pre @ c # suf)" and c: "is_separator c"
    and suf: "\<forall>x\<in>set suf. \<not> is_separator x"
  shows "crop_path (pre @ c # suf) = Some suf"
proof -
  have "last_index_of [CHR ''/'', CHR 0x5C] (pre @ c # suf) = Some (length pre)"
    using c suf by (intro last_index_of_last) (auto simp: is_separator_def)
  then have f: "find_last_of (pre @ c # suf) [CHR ''/'', CHR 0x5C] + 1 = of_nat (Suc (length pre))"
    by (simp add: find_last_of_def)
  from v have "Suc (length pre) < 2 ^ 64" by (simp add: valid_string_def)
  then have u: "unat (of_nat (Suc (length pre)) :: size_t) = Suc (length pre)"
    by (simp add: unat_of_nat del: of_nat_Suc)
  show ?thesis
    unfolding crop_path_def Let_def f substr_def u by simp
qed

lemma basename_no_separator: "\<forall>x\<in>set s. \<not> is_separator x \<Longrightarrow> basename s = s"
  by (simp add: basename_def takeWhile_eq_all_conv[THEN iffD2])

lemma basename_after_last:
  assumes c: "is_separator c" and suf: "\<forall>x\<in>set suf. \<not> is_separator x"
  shows "basename (pre @ c # suf) = suf"
proof -
  have "takeWhile (\<lambda>c. \<not> is_separator c) (rev suf @ c # rev pre) =
        rev suf @ takeWhile (\<lambda>c. \<not> is_separator c) (c # rev pre)"
    by (rule takeWhile_append2) (use suf in auto)
  with c show ?thesis by (simp add: basename_def)
qed

lemma crop_path_basename:
  assumes "valid_string s"
  shows "crop_path s = Some (basename s)"
proof (cases "\<exists>x\<in>set s. is_separator x")
  case True
  then obtain pre c suf where s: "s = pre @ c # suf" and c: "is_separator c"
    and suf: "\<forall>x\<in>set suf. \<not> is_separator x"
    using split_list_last_prop[of s is_separator] by blast
  with assms show ?thesis
    by (simp add: crop_path_after_last basename_after_last)
next
  case False
  then show ?thesis by (simp add: crop_path_no_separator basename_no_separator)
qed


section \<open>\<open>insert_separators\<close> groups from the right\<close>

lemma insert_separators_loop_eq:
  "pos \<le> length n_str \<Longrightarrow>
   insert_separators_loop n_str pos stream = Some (stream @ separated (drop pos n_str))"
proof (induction n_str pos stream rule: insert_separators_loop.induct)
  case (1 n_str pos stream)
  show ?case
  proof (cases "pos < length n_str")
    case True
    then have d: "drop pos n_str = n_str ! pos # drop (Suc pos) n_str"
      by (simp add: Cons_nth_drop_Suc)
    from True have a: "at n_str pos = Some (n_str ! pos)" by (simp add: at_def)
    from True have le: "Suc pos \<le> length n_str" by simp
    show ?thesis
      using True "1.IH"[OF True a le]
      by (subst insert_separators_loop.simps) (simp add: a d del: drop_Suc)
  next
    case False
    with "1.prems" have "pos = length n_str" by simp
    then show ?thesis by (subst insert_separators_loop.simps) simp
  qed
qed

lemma group3_snoc:
  "group3 (ys @ [c]) =
     (if length ys \<ge> 3 \<and> length ys mod 3 = 0 then group3 ys @ [CHR '','', c]
      else group3 ys @ [c])"
  by (induction ys rule: group3.induct) (auto simp: mod_Suc)

lemma separated_eq: "separated s = with_separators s"
  by (induction s) (simp_all add: with_separators_def group3_snoc)

lemma insert_separators_eq: "insert_separators n = Some (with_separators (to_chars n))"
  by (simp add: insert_separators_def insert_separators_loop_eq separated_eq)

lemma with_separators_Cons:
  "with_separators (c # cs) =
     c # (if length cs \<ge> 3 \<and> length cs mod 3 = 0 then CHR '','' # with_separators cs
          else with_separators cs)"
  by (simp flip: separated_eq)

lemma group3_filter:
  "filter (\<lambda>c. c \<noteq> CHR '','') (group3 ds) = filter (\<lambda>c. c \<noteq> CHR '','') ds"
  by (induction ds rule: group3.induct) simp_all

lemma with_separators_filter:
  "CHR '','' \<notin> set s \<Longrightarrow> filter (\<lambda>c. c \<noteq> CHR '','') (with_separators s) = s"
  by (auto simp: with_separators_def rev_filter[symmetric] group3_filter filter_id_conv)



lemma group3_comma_positions:
  "CHR '','' \<notin> set ds \<Longrightarrow> j < length (group3 ds) \<Longrightarrow>
   (group3 ds ! j = CHR '','') = (j mod 4 = 3)"
proof (induction ds arbitrary: j rule: group3.induct)
  case (1 a b c d ds)
  have "j = 0 \<or> j = 1 \<or> j = 2 \<or> j = 3 \<or> (\<exists>j'. j = j' + 4)"
    by (metis One_nat_def Suc_1 add.commute add_2_eq_Suc' add_Suc_right numeral_3_eq_3
        numeral_Bit0 not0_implies_Suc)
  then consider "j = 0" | "j = 1" | "j = 2" | "j = 3" | j' where "j = j' + 4"
    by blast
  then show ?case
  proof cases
    case 5
    with 1 show ?thesis by simp
  qed (use 1 in auto)
qed (auto simp: nth_Cons' less_Suc_eq)

lemma with_separators_comma_positions:
  assumes "CHR '','' \<notin> set s" and "i < length (with_separators s)"
  shows "(with_separators s ! i = CHR '','') = ((length (with_separators s) - i) mod 4 = 0)"
proof -
  let ?g = "group3 (rev s)"
  from assms(2) have i: "i < length ?g" by (simp add: with_separators_def)
  then have j: "length ?g - Suc i < length ?g" by simp
  have "with_separators s ! i = ?g ! (length ?g - Suc i)"
    using i by (simp add: with_separators_def rev_nth)
  moreover have "(?g ! (length ?g - Suc i) = CHR '','') = ((length ?g - Suc i) mod 4 = 3)"
    using assms(1) j by (intro group3_comma_positions) simp_all
  moreover have "length ?g - i = Suc (length ?g - Suc i)"
    using i by simp
  then have "((length ?g - Suc i) mod 4 = 3) = ((length ?g - i) mod 4 = 0)"
    by (simp add: mod_Suc)
  ultimately show ?thesis by (simp add: with_separators_def)
qed

section \<open>What the printing functions write\<close>

lemma title_pad_eq: "title_pad = 28"
  by (simp add: title_pad_def int_of_size_t_def line_width_def title_def)

lemma fill_80:
  "replicate 79 c @ c # ys = replicate 80 c @ ys"
  "c # replicate 79 c @ ys = replicate 80 c @ ys"
  by (simp_all add: numeral_eq_Suc)

lemma fill_28:
  "replicate 27 c @ c # ys = replicate 28 c @ ys"
  "c # replicate 27 c @ ys = replicate 28 c @ ys"
  by (simp_all add: numeral_eq_Suc)

lemma blank_10: "replicate 9 c @ c # ys = replicate 10 c @ ys"
  by (simp add: numeral_eq_Suc)

lemma blank_15: "replicate 14 c @ c # ys = replicate 15 c @ ys"
  by (simp add: numeral_eq_Suc)

lemma nat_width: "nat (numeral w - int k) = numeral w - k"
  by (subst nat_minus_as_int) simp

lemma replicate_numeral_Cons: "replicate (numeral k) c = c # replicate (pred_numeral k) c"
  by (simp add: numeral_eq_Suc)

lemma print_hline_eq:
  "print_hline c os = os\<lparr>buf := buf os @ hline c, fill := c, width := 0\<rparr>"
  by (cases "adjust os")
    (simp_all add: print_hline_def chain_def setfill_def setw_def put_char_def put_str_def
      padding_def endl_def hline_def line_width_def fill_80)

lemma print_title_eq:
  "print_title os = os\<lparr>buf := buf os @ title_banner, fill := CHR ''#'', width := 0\<rparr>"
proof -
  have t: "(of_nat (length title) :: size_t) mod 2 > 0"
    by (simp add: title_def)
  show ?thesis
    by (cases "adjust os")
      (simp_all add: print_title_def chain_def setfill_def setw_def put_char_def put_str_def
        padding_def endl_def title_banner_def line_width_def title_pad_eq t fill_80 fill_28
        title_def Let_def)
qed

lemma print_header_eq:
  "print_header os =
     os\<lparr>buf := buf os @ header_row @ [newline] @ hline CHR ''='', fill := CHR ''='',
        width := 0, adjust := Right\<rparr>"
  by (simp add: print_header_def print_hline_eq chain_def setfill_def setw_def put_str_def
      std_left_def std_right_def padding_def endl_def header_row_def ljust_def rjust_def
      file_col_width_def line_col_width_def count_col_width_def avg_duration_col_width_def
      ovr_duration_col_width_def)

lemma num_chars_classic: "num_chars classic n = to_chars n"
  by (simp add: num_chars_def num_prefix_def num_digits_def classic_def to_chars_def)

lemma print_measurement_with_eq:
  assumes "valid_measurement m"
  shows "print_measurement_with f m os =
     Some (os\<lparr>buf := buf os @ row_A_with f m @ [newline] @ row_B_with f m @ [newline],
        fill := CHR '' '', width := 0, adjust := Right\<rparr>)"
  using assms
  by (simp add: print_measurement_with_def valid_measurement_def crop_path_basename
      insert_separators_eq chain_def setfill_def setw_def put_str_def put_num_def
      std_left_def std_right_def padding_def endl_def row_A_with_def row_B_with_def
      shown_file_end_def ljust_def rjust_def
      file_col_width_def line_col_width_def count_col_width_def avg_duration_col_width_def
      ovr_duration_col_width_def eq_commute[of "basename (get_file (get_start m))"]
      Let_def nat_width blank_10 blank_15)

lemma row_A_with_classic: "row_A_with classic m = row_A m"
  by (simp add: row_A_with_def row_A_def num_chars_classic)

lemma row_B_with_classic: "row_B_with classic m = row_B m"
  by (simp add: row_B_with_def row_B_def row_B_tail_def num_chars_classic)

lemma block_with_classic: "block_with classic m = block m"
  by (simp add: block_with_def block_def row_A_with_classic row_B_with_classic)

lemma body_with_classic: "body_with classic ms = body ms"
  by (induction ms) (simp_all add: block_with_classic)

lemma report_with_classic: "report_with classic p = report p"
  by (simp add: report_with_def report_def body_with_classic)

lemma print_measurement_eq:
  assumes "valid_measurement m"
  shows "print_measurement m os =
     Some (os\<lparr>buf := buf os @ row_A m @ [newline] @ row_B m @ [newline], fill := CHR '' '',
        width := 0, adjust := Right\<rparr>)"
  using print_measurement_with_eq[OF assms, of classic os]
  by (simp add: print_measurement_def row_A_with_classic row_B_with_classic)

lemma print_loop_with_eq:
  "list_all valid_measurement ms \<Longrightarrow> i \<le> length ms \<Longrightarrow>
   map_option buf (print_loop_with f ms i os) = Some (buf os @ body_with f (drop i ms))"
proof (induction f ms i os rule: print_loop_with.induct)
  case (1 f ms i os)
  show ?case
  proof (cases "i < length ms")
    case True
    define ch where "ch = (if i < length ms - 1 then CHR ''-'' else CHR ''#'')"
    define os1 where "os1 = os\<lparr>buf := buf os @ row_A_with f (ms ! i) @ [newline] @
      row_B_with f (ms ! i) @ [newline], fill := CHR '' '', width := 0, adjust := Right\<rparr>"
    from True "1.prems" have "valid_measurement (ms ! i)"
      by (simp add: list_all_length)
    then have m: "print_measurement_with f (ms ! i) os = Some os1"
      unfolding os1_def by (rule print_measurement_with_eq)
    from True have le: "Suc i \<le> length ms" by simp
    have ih: "map_option buf (print_loop_with f ms (Suc i) (print_hline ch os1)) =
        Some (buf (print_hline ch os1) @ body_with f (drop (Suc i) ms))"
      using "1.IH"[OF True m "1.prems"(1) le] unfolding ch_def .
    have step: "print_loop_with f ms i os = print_loop_with f ms (Suc i) (print_hline ch os1)"
      by (subst print_loop_with.simps) (simp add: True m ch_def)
    from True have "drop i ms = ms ! i # drop (Suc i) ms"
      by (simp add: Cons_nth_drop_Suc)
    moreover from True have "(drop (Suc i) ms = []) = (\<not> i < length ms - 1)"
      by auto
    ultimately have b: "body_with f (drop i ms) =
        block_with f (ms ! i) @ hline ch @ body_with f (drop (Suc i) ms)"
      by (simp add: ch_def del: drop_Suc)
    have "buf (print_hline ch os1) = buf os @ block_with f (ms ! i) @ hline ch"
      by (simp add: print_hline_eq os1_def block_with_def)
    then show ?thesis
      unfolding step ih b by simp
  next
    case False
    with "1.prems" have "i = length ms" by simp
    then show ?thesis by (subst print_loop_with.simps) simp
  qed
qed

lemma print_with_eq:
  "valid_printer p \<Longrightarrow> map_option buf (print_with f p os) = Some (buf os @ report_with f p)"
  by (simp add: print_with_def valid_printer_def print_loop_with_eq print_header_eq
      print_title_eq report_with_def)

lemma print_eq:
  "valid_printer p \<Longrightarrow> map_option buf (print p os) = Some (buf os @ report p)"
  using print_with_eq[of p classic os] by (simp add: print_def report_with_classic)

lemma body_snoc:
  "body (ms @ [m]) = concat (map (\<lambda>x. block x @ hline CHR ''-'') ms) @ block m @ hline CHR ''#''"
  by (induction ms) simp_all

lemma body_nonempty:
  "ms \<noteq> [] \<Longrightarrow>
   body ms = concat (map (\<lambda>x. block x @ hline CHR ''-'') (butlast ms)) @ block (last ms) @ hline CHR ''#''"
  using body_snoc[of "butlast ms" "last ms"] by simp

section \<open>Evaluation of the concrete inputs\<close>

lemma valid_scenario: "valid_measurement scenario"
  by (simp add: valid_measurement_def valid_string_def scenario_def measurement_def)

lemma row_A_scenario:
  "row_A scenario = ''a.cpp                         |    10|          |               |''"
  by (simp add: row_A_def scenario_def measurement_def basename_def is_separator_def
      to_chars_def decimal.simps digit_char_def ljust_def rjust_def replicate_numeral_Cons)

lemma row_B_scenario:
  "row_B scenario = ''                              |    20|         2|          1,500|          3,000''"
  by (simp add: row_B_def row_B_tail_def shown_file_end_def scenario_def measurement_def
      basename_def is_separator_def to_chars_def decimal.simps digit_char_def
      with_separators_def ljust_def rjust_def replicate_numeral_Cons)

section \<open>The claims of the specification\<close>

subsection \<open>The two rows of an aggregate\<close>



subsection \<open>Thousands separators\<close>

text \<open>
  Claim C2.  For a non-negative input, \<open>insert_separators\<close> returns the decimal digits of
  the input with a comma after every group of three digits counted from the
  least-significant digit: the digits are those of the input (removing the commas gives
  them back), and the character at distance \<open>d\<close> from the end of the result is a comma
  exactly when \<open>d\<close> is a multiple of 4, so that there is no comma after the final digit
  and none before the first.  In particular 0, 999, 1000 and 1234567 are formatted as
  0, 999, 1,000 and 1,234,567.
\<close>

theorem insert_separators_non_negative:
  "(0 \<le> n \<longrightarrow>
      insert_separators n = Some (with_separators (decimal (nat n))) \<and>
      set (decimal (nat n)) \<subseteq> set ''0123456789'' \<and>
      filter (\<lambda>c. c \<noteq> CHR '','') (with_separators (decimal (nat n))) = decimal (nat n) \<and>
      (\<forall>i < length (with_separators (decimal (nat n))).
         (with_separators (decimal (nat n)) ! i = CHR '','') =
         ((length (with_separators (decimal (nat n))) - i) mod 4 = 0))) \<and>
   insert_separators 0 = Some ''0'' \<and>
   insert_separators 999 = Some ''999'' \<and>
   insert_separators 1000 = Some ''1,000'' \<and>
   insert_separators 1234567 = Some ''1,234,567''"
proof (intro conjI impI allI)
  assume "0 \<le> n"
  then show "insert_separators n = Some (with_separators (decimal (nat n)))"
    by (simp add: insert_separators_eq to_chars_def)
next
  show "set (decimal (nat n)) \<subseteq> set ''0123456789''"
    by (rule decimal_digits)
next
  show "filter (\<lambda>c. c \<noteq> CHR '','') (with_separators (decimal (nat n))) = decimal (nat n)"
    by (rule with_separators_filter) (rule decimal_no_comma)
next
  fix i
  assume "i < length (with_separators (decimal (nat n)))"
  then show "(with_separators (decimal (nat n)) ! i = CHR '','') =
         ((length (with_separators (decimal (nat n))) - i) mod 4 = 0)"
    by (rule with_separators_comma_positions[OF decimal_no_comma])
qed (simp_all add: insert_separators_eq to_chars_def decimal.simps digit_char_def
    with_separators_def)

theorem insert_separators_non_negative_witness:
  "(0::int) \<le> 1234567 \<and>
   insert_separators 1234567 = Some ''1,234,567'' \<and>
   filter (\<lambda>c. c \<noteq> CHR '','') ''1,234,567'' = ''1234567'' \<and>
   (1::nat) < length ''1,234,567'' \<and>
   (''1,234,567'' ! 1 = CHR '','') = ((length ''1,234,567'' - 1) mod 4 = 0)"
proof -
  have d: "decimal (nat 1234567) = ''1234567''"
    by (simp add: decimal.simps digit_char_def)
  have w: "with_separators ''1234567'' = ''1,234,567''"
    by (simp add: with_separators_def)
  note t = insert_separators_non_negative[of 1234567, unfolded d w]
  from t have "\<forall>i < length ''1,234,567''.
      (''1,234,567'' ! i = CHR '','') = ((length ''1,234,567'' - i) mod 4 = 0)"
    by simp
  then have "(''1,234,567'' ! 1 = CHR '','') = ((length ''1,234,567'' - 1) mod 4 = 0)"
    by simp
  with t show ?thesis
    by simp
qed

text \<open>
  Claim C9.  For a negative input the scan runs over the signed decimal string, minus
  sign included.  The result is the minus sign followed by the separated magnitude, with
  one more comma directly after the minus sign whenever the number of digits of the
  magnitude is a multiple of 3: \<open>-100\<close> gives \<open>-,100\<close> and \<open>-100000\<close> gives
  \<open>-,100,000\<close>, while \<open>-1000\<close> gives \<open>-1,000\<close>.
\<close>

theorem insert_separators_negative:
  "(n < 0 \<longrightarrow>
      insert_separators n =
        Some (CHR ''-'' #
          (if length (decimal (nat (- n))) mod 3 = 0
           then CHR '','' # with_separators (decimal (nat (- n)))
           else with_separators (decimal (nat (- n)))))) \<and>
   insert_separators (- 100) = Some ''-,100'' \<and>
   insert_separators (- 100000) = Some ''-,100,000'' \<and>
   insert_separators (- 1000) = Some ''-1,000''"
proof (intro conjI impI)
  assume n: "n < 0"
  have "length (decimal (nat (- n))) \<noteq> 0"
    using decimal_nonempty by simp
  then have "(3 \<le> length (decimal (nat (- n))) \<and> length (decimal (nat (- n))) mod 3 = 0) =
      (length (decimal (nat (- n))) mod 3 = 0)"
    by (auto simp: mod_eq_0_iff_dvd dvd_imp_le)
  with n show "insert_separators n =
        Some (CHR ''-'' #
          (if length (decimal (nat (- n))) mod 3 = 0
           then CHR '','' # with_separators (decimal (nat (- n)))
           else with_separators (decimal (nat (- n)))))"
    by (simp add: insert_separators_eq to_chars_def with_separators_Cons)
qed (simp_all add: insert_separators_eq to_chars_def decimal.simps digit_char_def
    with_separators_def)

theorem insert_separators_negative_witness:
  "(- 100 :: int) < 0 \<and> length (decimal (nat (- (- 100)))) mod 3 = 0 \<and>
   insert_separators (- 100) = Some (CHR ''-'' # CHR '','' # with_separators ''100'') \<and>
   with_separators ''100'' = ''100''"
proof -
  have d: "decimal (nat (- (- 100))) = ''100''"
    by (simp add: decimal.simps digit_char_def)
  have w: "with_separators ''100'' = ''100''"
    by (simp add: with_separators_def)
  show ?thesis
    using insert_separators_negative[of "- 100"]
    unfolding d w by simp
qed

subsection \<open>Path shortening\<close>

text \<open>
  Claim C6.  \<open>crop_path\<close> returns the part of its input strictly after the last \<open>/\<close> or
  backslash, and the input unchanged when it contains neither; so \<open>a/b/c.cpp\<close>,
  \<open>c.cpp\<close> and \<open>a\b\c.cpp\<close> all give \<open>c.cpp\<close>.
\<close>

theorem crop_path_after_last_separator:
  "(valid_string (pre @ c # suf) \<and> is_separator c \<and> (\<forall>x\<in>set suf. \<not> is_separator x) \<longrightarrow>
      crop_path (pre @ c # suf) = Some suf) \<and>
   ((\<forall>x\<in>set s. \<not> is_separator x) \<longrightarrow> crop_path s = Some s) \<and>
   crop_path ''a/b/c.cpp'' = Some ''c.cpp'' \<and>
   crop_path ''c.cpp'' = Some ''c.cpp'' \<and>
   crop_path [CHR ''a'', CHR 0x5C, CHR ''b'', CHR 0x5C, CHR ''c'', CHR ''.'', CHR ''c'',
     CHR ''p'', CHR ''p''] = Some ''c.cpp''"
proof (intro conjI impI)
  assume "valid_string (pre @ c # suf) \<and> is_separator c \<and> (\<forall>x\<in>set suf. \<not> is_separator x)"
  then show "crop_path (pre @ c # suf) = Some suf"
    by (simp add: crop_path_after_last)
next
  assume "\<forall>x\<in>set s. \<not> is_separator x"
  then show "crop_path s = Some s"
    by (rule crop_path_no_separator)
qed (simp_all add: crop_path_def find_last_of_def npos_def substr_def)

theorem crop_path_after_last_separator_witness:
  "valid_string (''a/b'' @ CHR ''/'' # ''c.cpp'') \<and> is_separator CHR ''/'' \<and>
   list_all (\<lambda>x. \<not> is_separator x) ''c.cpp'' \<and>
   crop_path (''a/b'' @ CHR ''/'' # ''c.cpp'') = Some ''c.cpp'' \<and>
   crop_path ''c.cpp'' = Some ''c.cpp''"
  using crop_path_after_last_separator[of "''a/b''" "CHR ''/''" "''c.cpp''" "''c.cpp''"]
  by (simp add: valid_string_def is_separator_def)

subsection \<open>The whole report\<close>

text \<open>
  Claim C5.  The report begins with a banner of three lines of 80 characters.  The first
  and the third are 80 fill characters \<open>#\<close>.  The second is \<open>(80 - 23) / 2 = 28\<close> fill
  characters, the title of 23 characters, one more fill character because the length of
  the title is odd, and 28 more fill characters.
\<close>

theorem print_begins_with_title_banner:
  "valid_printer p \<Longrightarrow>
     (\<exists>rest. map_option buf (print p os) =
        Some (buf os @
          replicate 80 CHR ''#'' @ [newline] @
          (replicate 28 CHR ''#'' @ '' PROFILING WITH SPEEDO '' @ ''#'' @ replicate 28 CHR ''#'') @
          [newline] @
          replicate 80 CHR ''#'' @ [newline] @ rest)) \<and>
     buf (print_title os) = buf os @
          replicate 80 CHR ''#'' @ [newline] @
          (replicate 28 CHR ''#'' @ '' PROFILING WITH SPEEDO '' @ ''#'' @ replicate 28 CHR ''#'') @
          [newline] @
          replicate 80 CHR ''#'' @ [newline] \<and>
     length '' PROFILING WITH SPEEDO '' = 23 \<and>
     title_pad = (80 - 23) div 2 \<and> title_pad = 28 \<and>
     length (replicate 28 CHR ''#'' @ '' PROFILING WITH SPEEDO '' @ ''#'' @ replicate 28 CHR ''#'') = 80"
proof (intro conjI)
  assume "valid_printer p"
  then have "map_option buf (print p os) = Some (buf os @ report p)"
    by (rule print_eq)
  then have "map_option buf (print p os) =
        Some (buf os @
          replicate 80 CHR ''#'' @ [newline] @
          (replicate 28 CHR ''#'' @ '' PROFILING WITH SPEEDO '' @ ''#'' @ replicate 28 CHR ''#'') @
          [newline] @
          replicate 80 CHR ''#'' @ [newline] @
          (header_row @ [newline] @ hline CHR ''='' @ body (measurements p)))"
    by (simp add: report_def title_banner_def title_def)
  then show "\<exists>rest. map_option buf (print p os) =
        Some (buf os @
          replicate 80 CHR ''#'' @ [newline] @
          (replicate 28 CHR ''#'' @ '' PROFILING WITH SPEEDO '' @ ''#'' @ replicate 28 CHR ''#'') @
          [newline] @
          replicate 80 CHR ''#'' @ [newline] @ rest)"
    by (rule exI)
next
  show "buf (print_title os) = buf os @
          replicate 80 CHR ''#'' @ [newline] @
          (replicate 28 CHR ''#'' @ '' PROFILING WITH SPEEDO '' @ ''#'' @ replicate 28 CHR ''#'') @
          [newline] @
          replicate 80 CHR ''#'' @ [newline]"
    by (simp add: print_title_eq title_banner_def title_def)
qed (simp_all add: title_pad_eq)

theorem print_begins_with_title_banner_witness:
  "valid_printer Printer_new \<and>
   (\<exists>rest. map_option buf (print Printer_new cerr0) =
        Some (replicate 80 CHR ''#'' @ [newline] @
          (replicate 28 CHR ''#'' @ '' PROFILING WITH SPEEDO '' @ ''#'' @ replicate 28 CHR ''#'') @
          [newline] @
          replicate 80 CHR ''#'' @ [newline] @ rest))"
proof -
  have v: "valid_printer Printer_new"
    by (simp add: valid_printer_def Printer_new_def)
  from print_begins_with_title_banner[OF v, of cerr0] obtain rest where
    "map_option buf (print Printer_new cerr0) =
        Some (buf cerr0 @
          replicate 80 CHR ''#'' @ [newline] @
          (replicate 28 CHR ''#'' @ '' PROFILING WITH SPEEDO '' @ ''#'' @ replicate 28 CHR ''#'') @
          [newline] @
          replicate 80 CHR ''#'' @ [newline] @ rest)"
    by blast
  then have "map_option buf (print Printer_new cerr0) =
        Some (replicate 80 CHR ''#'' @ [newline] @
          (replicate 28 CHR ''#'' @ '' PROFILING WITH SPEEDO '' @ ''#'' @ replicate 28 CHR ''#'') @
          [newline] @
          replicate 80 CHR ''#'' @ [newline] @ rest)"
    by (simp add: cerr0_def)
  then have "\<exists>rest. map_option buf (print Printer_new cerr0) =
        Some (replicate 80 CHR ''#'' @ [newline] @
          (replicate 28 CHR ''#'' @ '' PROFILING WITH SPEEDO '' @ ''#'' @ replicate 28 CHR ''#'') @
          [newline] @
          replicate 80 CHR ''#'' @ [newline] @ rest)"
    by (rule exI)
  with v show ?thesis by (rule conjI)
qed

text \<open>
  Claim C7.  Without aggregates the report is the banner of three lines, the header
  row and one line of 80 characters \<open>=\<close>, and nothing else.
\<close>

theorem print_without_measurements:
  "measurements p = [] \<Longrightarrow>
     map_option buf (print p os) =
       Some (buf os @ title_banner @ header_row @ [newline] @ replicate 80 CHR ''='' @ [newline])"
proof -
  assume e: "measurements p = []"
  then have "valid_printer p"
    by (simp add: valid_printer_def)
  then have "map_option buf (print p os) = Some (buf os @ report p)"
    by (rule print_eq)
  with e show ?thesis
    by (simp add: report_def hline_def)
qed

theorem print_without_measurements_witness:
  "measurements Printer_new = [] \<and>
   map_option buf (print Printer_new cerr0) =
     Some (replicate 80 CHR ''#'' @ [newline] @
       replicate 28 CHR ''#'' @ '' PROFILING WITH SPEEDO '' @ ''#'' @ replicate 28 CHR ''#'' @
       [newline] @
       replicate 80 CHR ''#'' @ [newline] @
       ''File                          | Line |    Count |  Average [us] |   Overall [us]'' @
       [newline] @
       replicate 80 CHR ''='' @ [newline])"
proof -
  have e: "measurements Printer_new = []"
    by (simp add: Printer_new_def)
  have h: "header_row =
      ''File                          | Line |    Count |  Average [us] |   Overall [us]''"
    by (simp add: header_row_def ljust_def rjust_def replicate_numeral_Cons)
  show ?thesis
    using print_without_measurements[OF e, of cerr0] e
    by (simp add: cerr0_def title_banner_def title_def h)
qed

text \<open>
  Claim C3.  For a sequence of \<open>N \<ge> 1\<close> aggregates the report has, after the banner
  and the header, the two rows of each aggregate immediately followed by a line of 80
  fill characters: \<open>-\<close> for every aggregate but the last, \<open>#\<close> for the last.  So there
  are exactly \<open>N\<close> such lines.
\<close>

theorem print_separator_lines:
  "valid_printer p \<Longrightarrow> measurements p \<noteq> [] \<Longrightarrow>
     map_option buf (print p os) =
       Some (buf os @ title_banner @ header_row @ [newline] @ replicate 80 CHR ''='' @ [newline] @
         concat (map (\<lambda>m. row_A m @ [newline] @ row_B m @ [newline] @
                          replicate 80 CHR ''-'' @ [newline])
                   (butlast (measurements p))) @
         row_A (last (measurements p)) @ [newline] @ row_B (last (measurements p)) @ [newline] @
         replicate 80 CHR ''#'' @ [newline])"
proof -
  assume v: "valid_printer p" and n: "measurements p \<noteq> []"
  have "map_option buf (print p os) = Some (buf os @ report p)"
    using v by (rule print_eq)
  then show ?thesis
    by (simp add: report_def body_nonempty[OF n] hline_def block_def)
qed

theorem print_separator_lines_witness:
  "valid_printer (add scenario (add wide31 Printer_new)) \<and>
   measurements (add scenario (add wide31 Printer_new)) \<noteq> [] \<and>
   map_option buf (print (add scenario (add wide31 Printer_new)) cerr0) =
     Some (title_banner @ header_row @ [newline] @ replicate 80 CHR ''='' @ [newline] @
       row_A wide31 @ [newline] @ row_B wide31 @ [newline] @ replicate 80 CHR ''-'' @ [newline] @
       row_A scenario @ [newline] @ row_B scenario @ [newline] @
       replicate 80 CHR ''#'' @ [newline])"
proof -
  have m: "measurements (add scenario (add wide31 Printer_new)) = [wide31, scenario]"
    by (simp add: add_def Printer_new_def)
  have v: "valid_printer (add scenario (add wide31 Printer_new))"
    unfolding valid_printer_def m
    by (simp add: valid_measurement_def valid_string_def scenario_def wide31_def
        measurement_def)
  have n: "measurements (add scenario (add wide31 Printer_new)) \<noteq> []"
    by (simp add: m)
  show ?thesis
    using print_separator_lines[OF v n, of cerr0] v n
    by (simp add: m cerr0_def)
qed

text \<open>
  Claim C8, as stated: \<open>print\<close> does not change the sequence of aggregates, and calling
  it twice on the same sequence writes the same bytes both times, the output being a
  function of the stored aggregates alone.  The last part fails.  The line numbers and
  the count are inserted as \<open>int\<close> in the number format of the stream, and nothing in the
  printer sets that format: on a stream left in hexadecimal with \<open>showbase\<close> the rows of
  the scenario show \<open>0xa\<close>, \<open>0x14\<close> and \<open>0x2\<close> where a stream in its default format
  shows \<open>10\<close>, \<open>20\<close> and \<open>2\<close>.
\<close>

theorem output_depends_on_number_format:
  "map_option buf (print_with classic (add scenario Printer_new) cerr0) =
     Some (title_banner @ header_row @ [newline] @ replicate 80 CHR ''='' @ [newline] @
       ''a.cpp                         |    10|          |               |'' @ [newline] @
       ''                              |    20|         2|          1,500|          3,000'' @ [newline] @
       replicate 80 CHR ''#'' @ [newline]) \<and>
   map_option buf (print_with hex_showbase (add scenario Printer_new) cerr0) =
     Some (title_banner @ header_row @ [newline] @ replicate 80 CHR ''='' @ [newline] @
       ''a.cpp                         |   0xa|          |               |'' @ [newline] @
       ''                              |  0x14|       0x2|          1,500|          3,000'' @ [newline] @
       replicate 80 CHR ''#'' @ [newline]) \<and>
   map_option buf (print_with hex_showbase (add scenario Printer_new) cerr0) \<noteq>
   map_option buf (print_with classic (add scenario Printer_new) cerr0)"
proof -
  have v: "valid_printer (add scenario Printer_new)"
    using valid_scenario by (simp add: valid_printer_def add_def Printer_new_def)
  have m: "measurements (add scenario Printer_new) = [scenario]"
    by (simp add: add_def Printer_new_def)
  have a: "row_A_with classic scenario = ''a.cpp                         |    10|          |               |''"
    using row_A_scenario by (simp add: row_A_with_classic)
  have b: "row_B_with classic scenario = ''                              |    20|         2|          1,500|          3,000''"
    using row_B_scenario by (simp add: row_B_with_classic)
  have u: "as_unsigned 10 = 10" "as_unsigned 20 = 20" "as_unsigned 2 = 2"
    by (simp_all add: as_unsigned_def)
  have n: "num_chars hex_showbase 10 = ''0xa''" "num_chars hex_showbase 20 = ''0x14''"
      "num_chars hex_showbase 2 = ''0x2''"
    by (simp_all add: num_chars_def num_prefix_def num_digits_def hex_showbase_def u
        hexadecimal.simps xdigit_char_def)
  have c: "row_A_with hex_showbase scenario = ''a.cpp                         |   0xa|          |               |''"
    by (simp add: row_A_with_def scenario_def measurement_def n basename_def is_separator_def
        ljust_def rjust_def replicate_numeral_Cons)
  have d: "row_B_with hex_showbase scenario = ''                              |  0x14|       0x2|          1,500|          3,000''"
    by (simp add: row_B_with_def shown_file_end_def scenario_def measurement_def n
        basename_def is_separator_def to_chars_def decimal.simps digit_char_def
        with_separators_def ljust_def rjust_def replicate_numeral_Cons)
  have 1: "map_option buf (print_with classic (add scenario Printer_new) cerr0) =
     Some (title_banner @ header_row @ [newline] @ replicate 80 CHR ''='' @ [newline] @
       ''a.cpp                         |    10|          |               |'' @ [newline] @
       ''                              |    20|         2|          1,500|          3,000'' @ [newline] @
       replicate 80 CHR ''#'' @ [newline])"
    unfolding print_with_eq[OF v] report_with_def m
    by (simp add: block_with_def a b hline_def cerr0_def)
  have 2: "map_option buf (print_with hex_showbase (add scenario Printer_new) cerr0) =
     Some (title_banner @ header_row @ [newline] @ replicate 80 CHR ''='' @ [newline] @
       ''a.cpp                         |   0xa|          |               |'' @ [newline] @
       ''                              |  0x14|       0x2|          1,500|          3,000'' @ [newline] @
       replicate 80 CHR ''#'' @ [newline])"
    unfolding print_with_eq[OF v] report_with_def m
    by (simp add: block_with_def c d hline_def cerr0_def)
  have 3: "map_option buf (print_with hex_showbase (add scenario Printer_new) cerr0) \<noteq>
      map_option buf (print_with classic (add scenario Printer_new) cerr0)"
    unfolding 1 2 by simp
  from 1 2 3 show ?thesis by blast
qed

text \<open>
  Claim C8, amended.  A call of \<open>print\<close> does not change the sequence of aggregates of
  the printer (nor the number format of the stream), and calling it twice on the same
  sequence, the number format of the stream being left as it is, writes the same bytes
  both times: the output is a function of the stored aggregates and of the number format
  of the stream (its base and its flags \<open>showbase\<close>, \<open>showpos\<close> and \<open>uppercase\<close>, in
  the classic locale), whatever fill character, width and adjustment the stream was left
  in.
\<close>

theorem repeated_print_same_output:
  "valid_printer (printer st) \<Longrightarrow>
     (\<exists>st1 st2. call_print st = Some st1 \<and> call_print st1 = Some st2 \<and>
        printer st1 = printer st \<and> printer st2 = printer st \<and>
        cerr_flags st1 = cerr_flags st \<and> cerr_flags st2 = cerr_flags st \<and>
        buf (cerr st1) = buf (cerr st) @ report_with (cerr_flags st) (printer st) \<and>
        buf (cerr st2) = buf (cerr st1) @ report_with (cerr_flags st) (printer st))"
proof -
  assume v: "valid_printer (printer st)"
  from print_with_eq[OF v, of "cerr_flags st" "cerr st"]
  obtain os1 where 1: "print_with (cerr_flags st) (printer st) (cerr st) = Some os1"
    and b1: "buf os1 = buf (cerr st) @ report_with (cerr_flags st) (printer st)"
    by auto
  from print_with_eq[OF v, of "cerr_flags st" os1]
  obtain os2 where 2: "print_with (cerr_flags st) (printer st) os1 = Some os2"
    and b2: "buf os2 = buf os1 @ report_with (cerr_flags st) (printer st)"
    by auto
  have c1: "call_print st = Some (st\<lparr>cerr := os1\<rparr>)"
    by (simp add: call_print_def 1)
  have c2: "call_print (st\<lparr>cerr := os1\<rparr>) = Some (st\<lparr>cerr := os2\<rparr>)"
    by (simp add: call_print_def 2)
  show ?thesis
    by (intro exI[of _ "st\<lparr>cerr := os1\<rparr>"] exI[of _ "st\<lparr>cerr := os2\<rparr>"])
      (simp add: c1 c2 b1 b2)
qed

theorem repeated_print_same_output_witness:
  "valid_printer (printer \<lparr>printer = add scenario Printer_new, cerr_flags = hex_showbase,
      cerr = cerr0\<rparr>) \<and>
   (\<exists>st1 st2.
      call_print \<lparr>printer = add scenario Printer_new, cerr_flags = hex_showbase,
        cerr = cerr0\<rparr> = Some st1 \<and>
      call_print st1 = Some st2 \<and>
      printer st1 = add scenario Printer_new \<and> printer st2 = add scenario Printer_new \<and>
      buf (cerr st1) = report_with hex_showbase (add scenario Printer_new) \<and>
      buf (cerr st2) =
        report_with hex_showbase (add scenario Printer_new) @
        report_with hex_showbase (add scenario Printer_new))"
proof -
  let ?st = "\<lparr>printer = add scenario Printer_new, cerr_flags = hex_showbase, cerr = cerr0\<rparr>"
  have v: "valid_printer (printer ?st)"
    using valid_scenario by (simp add: valid_printer_def add_def Printer_new_def)
  from repeated_print_same_output[OF v] obtain st1 st2
    where "call_print ?st = Some st1" and "call_print st1 = Some st2"
      and "printer st1 = printer ?st" and "printer st2 = printer ?st"
      and "buf (cerr st1) = buf (cerr ?st) @ report_with (cerr_flags ?st) (printer ?st)"
      and "buf (cerr st2) = buf (cerr st1) @ report_with (cerr_flags ?st) (printer ?st)"
    by blast
  then have "\<exists>st1 st2.
      call_print ?st = Some st1 \<and>
      call_print st1 = Some st2 \<and>
      printer st1 = add scenario Printer_new \<and> printer st2 = add scenario Printer_new \<and>
      buf (cerr st1) = report_with hex_showbase (add scenario Printer_new) \<and>
      buf (cerr st2) =
        report_with hex_showbase (add scenario Printer_new) @
        report_with hex_showbase (add scenario Printer_new)"
    by (intro exI[of _ st1] exI[of _ st2]) (simp add: cerr0_def)
  with v show ?thesis by (rule conjI)
qed

subsection \<open>The file name of the second row\<close>



subsection \<open>Column widths\<close>

text \<open>
  Claim C10, as stated: whenever the cropped file name has 30 characters or more, the
  \<open>|\<close> after it shifts right and the row grows wider than the 80-column layout.  This
  fails for a name of exactly 30 characters: it fills the File column, the \<open>|\<close> stays at
  offset 30, Row A has its usual 65 characters and Row B its usual 80.
\<close>

theorem exactly_30_characters_fit:
  "length (basename (get_file (get_start wide30))) = 30 \<and>
   map_option buf (print_measurement wide30 cerr0) =
     Some (''abcdefghijklmnopqrstuvwxyz.cpp|    10|          |               |'' @ [newline] @
           ''                              |    20|         2|          1,500|          3,000'' @ [newline]) \<and>
   ''abcdefghijklmnopqrstuvwxyz.cpp|    10|          |               |'' ! 30 = CHR ''|'' \<and>
   length ''abcdefghijklmnopqrstuvwxyz.cpp|    10|          |               |'' = 65 \<and>
   length ''                              |    20|         2|          1,500|          3,000'' = 80"
proof -
  have v: "valid_measurement wide30"
    by (simp add: valid_measurement_def valid_string_def wide30_def measurement_def)
  have a: "row_A wide30 = ''abcdefghijklmnopqrstuvwxyz.cpp|    10|          |               |''"
    by (simp add: row_A_def wide30_def measurement_def basename_def is_separator_def
        to_chars_def decimal.simps digit_char_def ljust_def rjust_def replicate_numeral_Cons)
  have b: "row_B wide30 = ''                              |    20|         2|          1,500|          3,000''"
    by (simp add: row_B_def row_B_tail_def shown_file_end_def wide30_def measurement_def
        basename_def is_separator_def to_chars_def decimal.simps digit_char_def
        with_separators_def ljust_def rjust_def replicate_numeral_Cons)
  have l: "length (basename (get_file (get_start wide30))) = 30"
    by (simp add: wide30_def measurement_def basename_def is_separator_def)
  show ?thesis
    using print_measurement_eq[OF v, of cerr0] l
    unfolding a b by (simp add: cerr0_def)
qed

text \<open>
  Claim C10, amended.  The column widths are minimum widths and no field is truncated:
  every field is written in full, padded with spaces up to its width.  So Row A has
  \<open>max 30 |file| + max 6 |line| + 29\<close> characters and Row B has
  \<open>max 30 |file| + max 6 |line| + max 10 |count| + max 15 |average| + max 15 |overall| + 4\<close>.
  When the file name shown on a row is strictly longer than 30 characters, the row begins
  with the whole name, the \<open>|\<close> follows it directly, further right than offset 30, and
  the row is longer than its nominal width (65 for Row A, 80 for Row B); a number longer
  than its column also makes Row B longer than 80.
\<close>

theorem column_widths_are_minimum_widths:
  "valid_measurement m \<Longrightarrow>
     map_option buf (print_measurement m os) =
       Some (buf os @ row_A m @ [newline] @ row_B m @ [newline]) \<and>
     length (row_A m) =
       max 30 (length (basename (get_file (get_start m)))) +
       max 6 (length (to_chars (get_line (get_start m)))) + 29 \<and>
     length (row_B m) =
       max 30 (length (shown_file_end m)) +
       max 6 (length (to_chars (get_line (get_end m)))) +
       max 10 (length (to_chars (count m))) +
       max 15 (length (with_separators (to_chars (get_average_duration m)))) +
       max 15 (length (with_separators (to_chars (get_overall_duration m)))) + 4 \<and>
     (30 < length (basename (get_file (get_start m))) \<longrightarrow>
        take (length (basename (get_file (get_start m)))) (row_A m) =
          basename (get_file (get_start m)) \<and>
        row_A m ! length (basename (get_file (get_start m))) = CHR ''|'' \<and>
        65 < length (row_A m)) \<and>
     (30 < length (shown_file_end m) \<longrightarrow>
        take (length (shown_file_end m)) (row_B m) = shown_file_end m \<and>
        row_B m ! length (shown_file_end m) = CHR ''|'' \<and>
        80 < length (row_B m)) \<and>
     (6 < length (to_chars (get_line (get_end m))) \<or>
      10 < length (to_chars (count m)) \<or>
      15 < length (with_separators (to_chars (get_average_duration m))) \<or>
      15 < length (with_separators (to_chars (get_overall_duration m))) \<longrightarrow>
        80 < length (row_B m))"
proof -
  assume v: "valid_measurement m"
  have la: "length (row_A m) =
       max 30 (length (basename (get_file (get_start m)))) +
       max 6 (length (to_chars (get_line (get_start m)))) + 29"
    by (simp add: row_A_def ljust_def rjust_def max_def)
  have lb: "length (row_B m) =
       max 30 (length (shown_file_end m)) +
       max 6 (length (to_chars (get_line (get_end m)))) +
       max 10 (length (to_chars (count m))) +
       max 15 (length (with_separators (to_chars (get_average_duration m)))) +
       max 15 (length (with_separators (to_chars (get_overall_duration m)))) + 4"
    by (simp add: row_B_def row_B_tail_def ljust_def rjust_def max_def)
  have "30 < length (basename (get_file (get_start m))) \<longrightarrow> 65 < length (row_A m)"
    unfolding la by (auto simp: max_def)
  then have a: "30 < length (basename (get_file (get_start m))) \<longrightarrow>
        take (length (basename (get_file (get_start m)))) (row_A m) =
          basename (get_file (get_start m)) \<and>
        row_A m ! length (basename (get_file (get_start m))) = CHR ''|'' \<and>
        65 < length (row_A m)"
    by (simp add: row_A_def ljust_def nth_append)
  have "30 < length (shown_file_end m) \<longrightarrow> 80 < length (row_B m)"
    unfolding lb by (auto simp: max_def)
  then have b: "30 < length (shown_file_end m) \<longrightarrow>
        take (length (shown_file_end m)) (row_B m) = shown_file_end m \<and>
        row_B m ! length (shown_file_end m) = CHR ''|'' \<and>
        80 < length (row_B m)"
    by (simp add: row_B_def ljust_def nth_append)
  have c: "6 < length (to_chars (get_line (get_end m))) \<or>
      10 < length (to_chars (count m)) \<or>
      15 < length (with_separators (to_chars (get_average_duration m))) \<or>
      15 < length (with_separators (to_chars (get_overall_duration m))) \<longrightarrow>
        80 < length (row_B m)"
    unfolding lb by (auto simp: max_def)
  from print_measurement_eq[OF v, of os] la lb a b c show ?thesis
    by simp
qed

theorem column_widths_are_minimum_widths_witness:
  "valid_measurement wide31 \<and>
   30 < length (basename (get_file (get_start wide31))) \<and>
   row_A wide31 = ''abcdefghijklmnopqrstuvwxyz0.cpp|    10|          |               |'' \<and>
   row_A wide31 ! 31 = CHR ''|'' \<and>
   length (row_A wide31) = 66 \<and>
   valid_measurement wide_end \<and>
   30 < length (shown_file_end wide_end) \<and>
   15 < length (with_separators (to_chars (get_average_duration wide_end))) \<and>
   row_B wide_end = ''abcdefghijklmnopqrstuvwxyz0.cpp|    20|         2|1,234,567,890,123|2,469,135,780,246'' \<and>
   row_B wide_end ! 31 = CHR ''|'' \<and>
   length (row_B wide_end) = 85"
proof -
  have v1: "valid_measurement wide31"
    by (simp add: valid_measurement_def valid_string_def wide31_def measurement_def)
  have v2: "valid_measurement wide_end"
    by (simp add: valid_measurement_def valid_string_def wide_end_def measurement_def)
  have a: "row_A wide31 = ''abcdefghijklmnopqrstuvwxyz0.cpp|    10|          |               |''"
    by (simp add: row_A_def wide31_def measurement_def basename_def is_separator_def
        to_chars_def decimal.simps digit_char_def ljust_def rjust_def replicate_numeral_Cons)
  have n1: "basename (get_file (get_start wide31)) = ''abcdefghijklmnopqrstuvwxyz0.cpp''"
    by (simp add: wide31_def measurement_def basename_def is_separator_def)
  have n2: "shown_file_end wide_end = ''abcdefghijklmnopqrstuvwxyz0.cpp''"
    by (simp add: shown_file_end_def wide_end_def measurement_def basename_def
        is_separator_def)
  have s: "with_separators (to_chars (get_average_duration wide_end)) = ''1,234,567,890,123''"
    by (simp add: wide_end_def measurement_def to_chars_def decimal.simps digit_char_def
        with_separators_def)
  have b: "row_B wide_end = ''abcdefghijklmnopqrstuvwxyz0.cpp|    20|         2|1,234,567,890,123|2,469,135,780,246''"
    unfolding row_B_def n2
    by (simp add: row_B_tail_def wide_end_def measurement_def to_chars_def decimal.simps
        digit_char_def with_separators_def ljust_def rjust_def replicate_numeral_Cons)
  show ?thesis
    using column_widths_are_minimum_widths[OF v1, of cerr0]
      column_widths_are_minimum_widths[OF v2, of cerr0] v1 v2
    unfolding a b n1 n2 s by simp
qed

end
